theory Spec2Isabelle
  imports Main "HOL-Library.Sublist"
begin

section \<open>Python values and exceptions\<close>

text \<open>
  The notebook \<^verbatim>\<open>Pacifica v2.0 Notifications.ipynb\<close> defines one class,
  \<^verbatim>\<open>SimpleEventHandler\<close>, and registers it with a router under a JSONPath
  predicate. Every other name it uses belongs to a library (pacifica-dispatcher,
  jsonpath2, the Python standard library). The library calls whose results the handler
  only passes on are parameters of the model, and so is \<^verbatim>\<open>str.upper\<close>, whose table
  of Unicode case mappings is not part of the notebook; the standard-library calls
  the handler makes on the file system (\<^verbatim>\<open>tempfile.TemporaryDirectory\<close>,
  \<^verbatim>\<open>os.path.join\<close>, \<^verbatim>\<open>open\<close>) are modelled on an explicit file system.

  Dynamically typed values (event payloads, transaction fields, job identifiers) are
  JSON values; \<open>JNull\<close> is Python's \<^verbatim>\<open>None\<close>. An object is an association list, read
  with \<open>map_of\<close>.
\<close>

datatype json =
    JNull
  | JBool bool
  | JNum int
  | JStr string
  | JArr "json list"
  | JObj "(string \<times> json) list"

datatype error =
    FileExistsError
  | FileNotFoundError
  | IsADirectoryError
  | NotADirectoryError
  | LibraryError string

section \<open>JSONPath predicates and the router\<close>

text \<open>
  The fragment of jsonpath2 the notebook's route uses: a path is the root \<^verbatim>\<open>$\<close>
  followed by subscripts; \<^verbatim>\<open>["k"]\<close> selects a member of an object, \<^verbatim>\<open>[*]\<close> every
  child of an array or object, and \<^verbatim>\<open>[?(e)]\<close> keeps the current node when \<open>e\<close> holds of
  it. A filter expression is a conjunction of comparisons \<^verbatim>\<open>@["k"] = "s"\<close> of a member
  of the current node with a string literal; a value equals a Python string only when
  it is that string.
\<close>

datatype expr =
    KeyEqStr string string
  | AndExpr "expr list"

datatype subscript =
    ObjectIndex string
  | Wildcard
  | Filter expr

type_synonym Path = "subscript list"

fun evaluate :: "expr \<Rightarrow> json \<Rightarrow> bool" where
  "evaluate (KeyEqStr k s) cur =
     (case cur of JObj kvs \<Rightarrow> map_of kvs k = Some (JStr s) | _ \<Rightarrow> False)"
| "evaluate (AndExpr es) cur = list_all (\<lambda>e. evaluate e cur) es"

fun match_subscript :: "subscript \<Rightarrow> json \<Rightarrow> json list" where
  "match_subscript (ObjectIndex k) cur =
     (case cur of
        JObj kvs \<Rightarrow> (case map_of kvs k of Some v \<Rightarrow> [v] | None \<Rightarrow> [])
      | _ \<Rightarrow> [])"
| "match_subscript Wildcard cur =
     (case cur of JArr vs \<Rightarrow> vs | JObj kvs \<Rightarrow> map snd kvs | _ \<Rightarrow> [])"
| "match_subscript (Filter e) cur = (if evaluate e cur then [cur] else [])"

fun match_path :: "Path \<Rightarrow> json \<Rightarrow> json list" where
  "match_path [] cur = [cur]"
| "match_path (s # ss) cur = concat (map (match_path ss) (match_subscript s cur))"

text \<open>
  A router is the ordered list of its routes. \<^verbatim>\<open>Router.add_route\<close> appends one;
  matching an event yields the handlers of the routes whose path has a match in the
  event.
\<close>

type_synonym 'h Router = "(Path \<times> 'h) list"

definition add_route :: "'h Router \<Rightarrow> Path \<Rightarrow> 'h \<Rightarrow> 'h Router" where
  "add_route router path event_handler = router @ [(path, event_handler)]"

definition match_event :: "'h Router \<Rightarrow> json \<Rightarrow> 'h list" where
  "match_event router event =
     map snd (filter (\<lambda>(path, h). match_path path event \<noteq> []) router)"

text \<open>
  The route of the notebook, as \<^verbatim>\<open>Path.parse_str\<close> reads its source text
  \<^verbatim>\<open>$["data"][*][?(@["destinationTable"] = "TransactionKeyValue" and
      @["key"] = "uppercase_text" and @["value"] = "False")]\<close>.
\<close>

definition uppercase_route :: Path where
  "uppercase_route =
     [ObjectIndex ''data'', Wildcard,
      Filter (AndExpr [KeyEqStr ''destinationTable'' ''TransactionKeyValue'',
                       KeyEqStr ''key'' ''uppercase_text'',
                       KeyEqStr ''value'' ''False''])]"

text \<open>The router of the notebook: created empty, then given this one route.\<close>

definition ROUTER :: "'h \<Rightarrow> 'h Router" where
  "ROUTER event_handler = add_route [] uppercase_route event_handler"

text \<open>
  The transaction key-value pairs an event carries: the records among the children of
  its \<^verbatim>\<open>data\<close> member whose destination table is \<^verbatim>\<open>TransactionKeyValue\<close>.
\<close>

definition event_data :: "json \<Rightarrow> json list" where
  "event_data event =
     (case event of
        JObj kvs \<Rightarrow>
          (case map_of kvs ''data'' of
             Some (JArr rs) \<Rightarrow> rs
           | Some (JObj m) \<Rightarrow> map snd m
           | _ \<Rightarrow> [])
      | _ \<Rightarrow> [])"

definition is_tkv :: "string \<Rightarrow> string \<Rightarrow> json \<Rightarrow> bool" where
  "is_tkv k v r =
     (case r of
        JObj kvs \<Rightarrow>
          map_of kvs ''destinationTable'' = Some (JStr ''TransactionKeyValue'') \<and>
          map_of kvs ''key'' = Some (JStr k) \<and>
          map_of kvs ''value'' = Some (JStr v)
      | _ \<Rightarrow> False)"

definition has_tkv :: "json \<Rightarrow> string \<Rightarrow> string \<Rightarrow> bool" where
  "has_tkv event k v = list_ex (is_tkv k v) (event_data event)"

section \<open>The file system and the standard library\<close>

text \<open>
  A file system is the set of its directories and the contents of its files, both by
  path. Paths are compared as strings: the model does not resolve \<^verbatim>\<open>.\<close>, \<^verbatim>\<open>..\<close>,
  repeated slashes or links.
\<close>

record fs =
  is_dir :: "string \<Rightarrow> bool"
  file_at :: "string \<Rightarrow> string option"

text \<open>\<^verbatim>\<open>posixpath.join\<close> with two arguments.\<close>

definition path_join :: "string \<Rightarrow> string \<Rightarrow> string" where
  "path_join a b =
     (if b \<noteq> [] \<and> hd b = CHR ''/'' then b
      else if a = [] \<or> last a = CHR ''/'' then a @ b
      else a @ ''/'' @ b)"

text \<open>\<^verbatim>\<open>posixpath.basename\<close> and \<^verbatim>\<open>posixpath.dirname\<close>.\<close>

definition basename :: "string \<Rightarrow> string" where
  "basename p = rev (takeWhile (\<lambda>c. c \<noteq> CHR ''/'') (rev p))"

definition dirname :: "string \<Rightarrow> string" where
  "dirname p =
     (let head = rev (dropWhile (\<lambda>c. c \<noteq> CHR ''/'') (rev p))
      in if list_ex (\<lambda>c. c \<noteq> CHR ''/'') head
         then rev (dropWhile (\<lambda>c. c = CHR ''/'') (rev head))
         else head)"

text \<open>
  \<^verbatim>\<open>open(p, 'w')\<close> creates the file or truncates it. It raises when \<open>p\<close> names a
  directory and when the directory part of \<open>p\<close> is not a directory (an empty directory
  part is the working directory).
\<close>

definition open_w :: "string \<Rightarrow> fs \<Rightarrow> error + fs" where
  "open_w p d =
     (if p = [] then Inl FileNotFoundError
      else if basename p = [] \<or> basename p = ''.'' \<or> basename p = ''..'' \<or> is_dir d p
        then Inl IsADirectoryError
      else if dirname p \<noteq> [] \<and> \<not> is_dir d (dirname p) then Inl FileNotFoundError
      else Inr (d\<lparr>file_at := (file_at d)(p \<mapsto> [])\<rparr>))"

definition write_file :: "string \<Rightarrow> string \<Rightarrow> fs \<Rightarrow> fs" where
  "write_file p s d = d\<lparr>file_at := (file_at d)(p \<mapsto> s)\<rparr>"

text \<open>
  \<^verbatim>\<open>str.upper\<close> follows the Unicode case mappings and may change the length of a
  text, so the handler below takes it as the parameter \<open>str_upper\<close>. On text made of
  ASCII characters only it is \<open>ascii_upper\<close>: the letters \<^verbatim>\<open>a\<close> to \<^verbatim>\<open>z\<close> move to
  \<^verbatim>\<open>A\<close> to \<^verbatim>\<open>Z\<close> and every other ASCII character stays. The example runs, whose
  texts are ASCII, use it.
\<close>

definition ascii_upper_char :: "char \<Rightarrow> char" where
  "ascii_upper_char c =
     (case map_of (zip ''abcdefghijklmnopqrstuvwxyz'' ''ABCDEFGHIJKLMNOPQRSTUVWXYZ'') c of
        Some u \<Rightarrow> u
      | None \<Rightarrow> c)"

definition ascii_upper :: "string \<Rightarrow> string" where
  "ascii_upper s = map ascii_upper_char s"

text \<open>
  \<^verbatim>\<open>shutil.rmtree\<close>: removes a directory and everything below it; raises when the
  path is not a directory.
\<close>

definition below :: "string \<Rightarrow> string \<Rightarrow> bool" where
  "below d p = prefix (d @ ''/'') p"

definition rmtree :: "string \<Rightarrow> fs \<Rightarrow> error + fs" where
  "rmtree d f =
     (if is_dir f d
      then Inr \<lparr>is_dir = (\<lambda>p. is_dir f p \<and> p \<noteq> d \<and> \<not> below d p),
                file_at = (\<lambda>p. if below d p then None else file_at f p)\<rparr>
      else if file_at f d \<noteq> None then Inl NotADirectoryError
      else Inl FileNotFoundError)"

section \<open>The world the handler runs in\<close>

text \<open>
  \<^verbatim>\<open>Transaction\<close> and \<^verbatim>\<open>TransactionKeyValue\<close> of pacifica-dispatcher, with the
  fields the notebook reads and writes. A field the constructor call leaves out has
  the default \<^verbatim>\<open>None\<close>. A \<^verbatim>\<open>File\<close> instance is only handed on to the downloader.
\<close>

record Transaction =
  t_id :: json
  submitter :: json
  instrument :: json
  project :: json

record TransactionKeyValue =
  kv_key :: string
  kv_value :: json

type_synonym File = json

text \<open>
  What the downloader hands back: callables that open a file. The opened file has a
  name and, when read, yields its text; both may depend on the file system at the
  time of the call, and both may raise.
\<close>

record file_obj =
  fd_name :: string
  fd_read :: "fs \<Rightarrow> error + string"

type_synonym opener = "fs \<Rightarrow> error + file_obj"

text \<open>
  The two runners are external: each takes the file system as it is, returns or
  raises, and leaves the file system as it likes. The uploader returns the triple
  (bundle, job id, state).
\<close>

type_synonym DownloaderRunner =
  "string \<Rightarrow> File list \<Rightarrow> fs \<Rightarrow> (error + opener list) \<times> fs"

type_synonym UploaderRunner =
  "string \<Rightarrow> Transaction \<Rightarrow> TransactionKeyValue list \<Rightarrow> fs
     \<Rightarrow> (error + json \<times> json \<times> json) \<times> fs"

record SimpleEventHandler =
  downloader_runner :: DownloaderRunner
  uploader_runner :: UploaderRunner

text \<open>The three \<^verbatim>\<open>from_cloudevents_model\<close> class methods, external as well.\<close>

record models =
  Transaction_from_cloudevents_model :: "json \<Rightarrow> error + Transaction"
  TransactionKeyValue_from_cloudevents_model :: "json \<Rightarrow> error + TransactionKeyValue list"
  File_from_cloudevents_model :: "json \<Rightarrow> error + File list"

text \<open>
  The log of what a run did, kept beside the file system so that properties of a run
  (how often a runner was called, what was written where) can be stated. An upload
  entry holds the file system the uploader was given and the job id it returned.
\<close>

datatype action =
    Mkdtemp string
  | Rmtree string "error option"
  | is_Download: Download string "File list" "error option"
  | ReadFile string string
  | WriteFile string string
  | is_Upload: Upload (up_dir: string) (up_transaction: Transaction)
      (up_kvs: "TransactionKeyValue list") (up_fs: fs) (up_result: "error + json")

record world =
  disk :: fs
  tmp_names :: "string list"
  trace :: "action list"

text \<open>
  \<^verbatim>\<open>tempfile.mkdtemp\<close>: candidate names are drawn (here from the list \<open>tmp_names\<close>, the
  draws the random generator will make) until \<^verbatim>\<open>os.mkdir\<close> of
  \<^verbatim>\<open>join(gettempdir(), "tmp" + name)\<close> succeeds; a candidate that exists is skipped,
  and running out of candidates raises \<^verbatim>\<open>FileExistsError\<close>.
\<close>

definition gettempdir :: string where
  "gettempdir = ''/tmp''"

fun mkdtemp_from :: "string list \<Rightarrow> fs \<Rightarrow> (error + string) \<times> string list" where
  "mkdtemp_from [] d = (Inl FileExistsError, [])"
| "mkdtemp_from (n # ns) d =
     (let file = path_join gettempdir (''tmp'' @ n)
      in if is_dir d file \<or> file_at d file \<noteq> None then mkdtemp_from ns d
         else if \<not> is_dir d gettempdir then (Inl FileNotFoundError, ns)
         else (Inr file, ns))"

definition mkdtemp :: "world \<Rightarrow> (error + string) \<times> world" where
  "mkdtemp w =
     (case mkdtemp_from (tmp_names w) (disk w) of
        (Inl e, ns) \<Rightarrow> (Inl e, w\<lparr>tmp_names := ns\<rparr>)
      | (Inr file, ns) \<Rightarrow>
          (Inr file,
           w\<lparr>disk := (disk w)\<lparr>is_dir := (is_dir (disk w))(file := True)\<rparr>,
             tmp_names := ns,
             trace := trace w @ [Mkdtemp file]\<rparr>))"

definition cleanup :: "string \<Rightarrow> world \<Rightarrow> (error + unit) \<times> world" where
  "cleanup name w =
     (case rmtree name (disk w) of
        Inl e \<Rightarrow> (Inl e, w\<lparr>trace := trace w @ [Rmtree name (Some e)]\<rparr>)
      | Inr d \<Rightarrow> (Inr (), w\<lparr>disk := d, trace := trace w @ [Rmtree name None]\<rparr>))"

text \<open>
  \<^verbatim>\<open>with tempfile.TemporaryDirectory() as name: body\<close>. Leaving the block, normally or
  by an exception, runs the cleanup; an exception of the cleanup replaces the outcome
  of the body.
\<close>

definition TemporaryDirectory ::
  "(string \<Rightarrow> world \<Rightarrow> (error + 'a) \<times> world) \<Rightarrow> world \<Rightarrow> (error + 'a) \<times> world" where
  "TemporaryDirectory body w =
     (case mkdtemp w of
        (Inl e, w1) \<Rightarrow> (Inl e, w1)
      | (Inr name, w1) \<Rightarrow>
          (case body name w1 of
             (r, w2) \<Rightarrow>
               (case cleanup name w2 of
                  (Inl e, w3) \<Rightarrow> (Inl e, w3)
                | (Inr u, w3) \<Rightarrow> (r, w3))))"

section \<open>The handler\<close>

text \<open>
  The loop of \<^verbatim>\<open>handle\<close>: for each opener, open the downloaded file, open the file
  of the same name below the uploader directory for writing, read the first and write
  its upper-cased text to the second. The first argument is \<^verbatim>\<open>str.upper\<close>.
\<close>

fun transform_files ::
  "(string \<Rightarrow> string) \<Rightarrow> string \<Rightarrow> opener list \<Rightarrow> world \<Rightarrow> (error + unit) \<times> world" where
  "transform_files str_upper uploader_tempdir_name [] w = (Inr (), w)"
| "transform_files str_upper uploader_tempdir_name (file_opener # rest) w =
     (case file_opener (disk w) of
        Inl e \<Rightarrow> (Inl e, w)
      | Inr file_fd \<Rightarrow>
          (let p = path_join uploader_tempdir_name (fd_name file_fd)
           in case open_w p (disk w) of
                Inl e \<Rightarrow> (Inl e, w)
              | Inr d1 \<Rightarrow>
                  (case fd_read file_fd d1 of
                     Inl e \<Rightarrow> (Inl e, w\<lparr>disk := d1\<rparr>)
                   | Inr s \<Rightarrow>
                       transform_files str_upper uploader_tempdir_name rest
                         (w\<lparr>disk := write_file p (str_upper s) d1,
                            trace := trace w @
                              [ReadFile (fd_name file_fd) s,
                               WriteFile p (str_upper s)]\<rparr>))))"

text \<open>
  The body of the two nested \<^verbatim>\<open>with\<close> blocks: download, transform, upload. The
  triple the uploader returns is bound to three local names and dropped; the method
  ends without a \<^verbatim>\<open>return\<close>, so its value is \<^verbatim>\<open>None\<close>.
\<close>

definition new_transaction :: "Transaction \<Rightarrow> Transaction" where
  "new_transaction transaction_inst =
     \<lparr>t_id = JNull,
      submitter = submitter transaction_inst,
      instrument = instrument transaction_inst,
      project = project transaction_inst\<rparr>"

definition new_key_values :: "Transaction \<Rightarrow> TransactionKeyValue list" where
  "new_key_values transaction_inst =
     [\<lparr>kv_key = ''uppercase_text'', kv_value = JStr ''True''\<rparr>,
      \<lparr>kv_key = ''Transactions._id'', kv_value = t_id transaction_inst\<rparr>]"

definition handle_body ::
  "(string \<Rightarrow> string) \<Rightarrow> SimpleEventHandler \<Rightarrow> Transaction \<Rightarrow> File list \<Rightarrow> string \<Rightarrow> string \<Rightarrow> world
     \<Rightarrow> (error + json) \<times> world" where
  "handle_body str_upper self transaction_inst file_insts downloader_tempdir_name
       uploader_tempdir_name w =
     (case downloader_runner self downloader_tempdir_name file_insts (disk w) of
        (Inl e, d1) \<Rightarrow>
          (Inl e, w\<lparr>disk := d1,
                     trace := trace w @
                       [Download downloader_tempdir_name file_insts (Some e)]\<rparr>)
      | (Inr openers, d1) \<Rightarrow>
          (case transform_files str_upper uploader_tempdir_name openers
                  (w\<lparr>disk := d1,
                     trace := trace w @
                       [Download downloader_tempdir_name file_insts None]\<rparr>) of
             (Inl e, w2) \<Rightarrow> (Inl e, w2)
           | (Inr u, w2) \<Rightarrow>
               (let transaction = new_transaction transaction_inst;
                    transaction_key_values = new_key_values transaction_inst
                in case uploader_runner self uploader_tempdir_name transaction
                          transaction_key_values (disk w2) of
                     (Inl e, d3) \<Rightarrow>
                       (Inl e, w2\<lparr>disk := d3,
                                   trace := trace w2 @
                                     [Upload uploader_tempdir_name transaction
                                        transaction_key_values (disk w2) (Inl e)]\<rparr>)
                   | (Inr (bundle, job_id, state), d3) \<Rightarrow>
                       (Inr JNull, w2\<lparr>disk := d3,
                                      trace := trace w2 @
                                        [Upload uploader_tempdir_name transaction
                                           transaction_key_values (disk w2)
                                           (Inr job_id)]\<rparr>))))"

definition handle ::
  "(string \<Rightarrow> string) \<Rightarrow> models \<Rightarrow> SimpleEventHandler \<Rightarrow> json \<Rightarrow> world
     \<Rightarrow> (error + json) \<times> world" where
  "handle str_upper M self event w =
     (case Transaction_from_cloudevents_model M event of
        Inl e \<Rightarrow> (Inl e, w)
      | Inr transaction_inst \<Rightarrow>
          (case TransactionKeyValue_from_cloudevents_model M event of
             Inl e \<Rightarrow> (Inl e, w)
           | Inr transaction_key_value_insts \<Rightarrow>
               (case File_from_cloudevents_model M event of
                  Inl e \<Rightarrow> (Inl e, w)
                | Inr file_insts \<Rightarrow>
                    TemporaryDirectory
                      (\<lambda>downloader_tempdir_name.
                         TemporaryDirectory
                           (\<lambda>uploader_tempdir_name.
                              handle_body str_upper self transaction_inst file_insts
                                downloader_tempdir_name uploader_tempdir_name))
                      w)))"

text \<open>Reading a log: the part a run added, and the entries of each kind.\<close>

definition new_actions :: "world \<Rightarrow> world \<Rightarrow> action list" where
  "new_actions w w' = drop (length (trace w)) (trace w')"

definition uploads :: "action list \<Rightarrow> action list" where
  "uploads t = filter is_Upload t"

definition downloads :: "action list \<Rightarrow> action list" where
  "downloads t = filter is_Download t"

fun reads :: "action list \<Rightarrow> (string \<times> string) list" where
  "reads [] = []"
| "reads (ReadFile n s # t) = (n, s) # reads t"
| "reads (a # t) = reads t"

fun writes :: "action list \<Rightarrow> (string \<times> string) list" where
  "writes [] = []"
| "writes (WriteFile p c # t) = (p, c) # writes t"
| "writes (a # t) = writes t"

fun created :: "action list \<Rightarrow> string list" where
  "created [] = []"
| "created (Mkdtemp d # t) = d # created t"
| "created (a # t) = created t"

fun cleanup_errors :: "action list \<Rightarrow> error list" where
  "cleanup_errors [] = []"
| "cleanup_errors (Rmtree d (Some e) # t) = e # cleanup_errors t"
| "cleanup_errors (a # t) = cleanup_errors t"

text \<open>
  The shape of a log, for the proofs. \<open>rw_actions\<close> is what the loop logs for the
  files it has read. \<open>body_shape\<close> lists the logs and outcomes the body of the \<^verbatim>\<open>with\<close>
  blocks can leave (the download raised; the loop raised; the upload raised; all went
  through), \<open>handle_shape\<close> those of a whole run. That the code has these shapes is
  proved below (\<open>handle_body_shape\<close>, \<open>handle_has_shape\<close>).
\<close>

definition rw_actions ::
  "(string \<Rightarrow> string) \<Rightarrow> string \<Rightarrow> (string \<times> string) list \<Rightarrow> action list" where
  "rw_actions U u rs =
     concat (map (\<lambda>(n, s). [ReadFile n s, WriteFile (path_join u n) (U s)]) rs)"

definition body_shape ::
  "(string \<Rightarrow> string) \<Rightarrow> string \<Rightarrow> string \<Rightarrow> File list \<Rightarrow> Transaction \<Rightarrow> error + json
     \<Rightarrow> action list \<Rightarrow> bool" where
  "body_shape U dd ud fl ti r t =
     (\<exists>rs.
        (\<exists>e. r = Inl e \<and> t = [Download dd fl (Some e)]) \<or>
        (\<exists>e. r = Inl e \<and> t = Download dd fl None # rw_actions U ud rs) \<or>
        (\<exists>e f. r = Inl e \<and>
            t = Download dd fl None # rw_actions U ud rs @
                [Upload ud (new_transaction ti) (new_key_values ti) f (Inl e)]) \<or>
        (\<exists>j f. r = Inr JNull \<and>
            t = Download dd fl None # rw_actions U ud rs @
                [Upload ud (new_transaction ti) (new_key_values ti) f (Inr j)]))"

definition handle_shape ::
  "(string \<Rightarrow> string) \<Rightarrow> models \<Rightarrow> json \<Rightarrow> error + json \<Rightarrow> action list \<Rightarrow> fs \<Rightarrow> bool" where
  "handle_shape U M event r t d' =
     ((isl r \<and> t = []) \<or>
      (\<exists>d1 x. isl r \<and> t = [Mkdtemp d1, Rmtree d1 x] \<and> \<not> is_dir d' d1) \<or>
      (\<exists>ti fl d1 d2 b rb x y.
          Transaction_from_cloudevents_model M event = Inr ti \<and>
          File_from_cloudevents_model M event = Inr fl \<and>
          t = Mkdtemp d1 # Mkdtemp d2 # b @ [Rmtree d2 x, Rmtree d1 y] \<and>
          body_shape U d1 d2 fl ti rb b \<and>
          \<not> is_dir d' d1 \<and> \<not> is_dir d' d2 \<and>
          r = (case y of Some e \<Rightarrow> Inl e
               | None \<Rightarrow> (case x of Some e \<Rightarrow> Inl e | None \<Rightarrow> rb))))"

section \<open>Example runs\<close>

text \<open>
  An ingest event with the trigger pair \<^verbatim>\<open>uppercase_text = "False"\<close>, a downloader
  that stores \<^verbatim>\<open>hello.txt\<close> with the text \<^verbatim>\<open>hello\<close> below its base directory and
  hands back an opener reading it, and an uploader that answers with job id 42.
\<close>

definition ex_event :: json where
  "ex_event =
     JObj [(''eventType'', JStr ''org.pacifica.metadata.ingest''),
           (''data'', JArr [
              JObj [(''destinationTable'', JStr ''Transactions._id''),
                    (''value'', JNum 1234)],
              JObj [(''destinationTable'', JStr ''TransactionKeyValue''),
                    (''key'', JStr ''uppercase_text''),
                    (''value'', JStr ''False'')],
              JObj [(''destinationTable'', JStr ''Files''),
                    (''name'', JStr ''hello.txt'')]])]"

definition ex_transaction :: Transaction where
  "ex_transaction =
     \<lparr>t_id = JNum 1234, submitter = JNum 10, instrument = JNum 54,
      project = JStr ''1234a''\<rparr>"

definition ex_models :: models where
  "ex_models =
     \<lparr>Transaction_from_cloudevents_model = (\<lambda>ev. Inr ex_transaction),
      TransactionKeyValue_from_cloudevents_model =
        (\<lambda>ev. Inr [\<lparr>kv_key = ''uppercase_text'', kv_value = JStr ''False''\<rparr>]),
      File_from_cloudevents_model = (\<lambda>ev. Inr [JStr ''hello.txt''])\<rparr>"

definition read_at :: "string \<Rightarrow> fs \<Rightarrow> error + string" where
  "read_at p d = (case file_at d p of None \<Rightarrow> Inl FileNotFoundError | Some c \<Rightarrow> Inr c)"

definition ex_downloader :: DownloaderRunner where
  "ex_downloader basedir files d =
     (Inr [\<lambda>d'. Inr \<lparr>fd_name = ''hello.txt'',
                      fd_read = read_at (path_join basedir ''hello.txt'')\<rparr>],
      write_file (path_join basedir ''hello.txt'') ''hello'' d)"

definition ex_uploader :: UploaderRunner where
  "ex_uploader dir t kvs d = (Inr (JStr ''bundle'', JNum 42, JStr ''OK''), d)"

definition ex_handler :: SimpleEventHandler where
  "ex_handler = \<lparr>downloader_runner = ex_downloader, uploader_runner = ex_uploader\<rparr>"

definition ex_world :: world where
  "ex_world =
     \<lparr>disk = \<lparr>is_dir = (\<lambda>p. p = ''/'' \<or> p = ''/tmp''), file_at = (\<lambda>p. None)\<rparr>,
      tmp_names = [''aaaa'', ''bbbb''],
      trace = []\<rparr>"

text \<open>A downloader that raises, and an uploader that raises.\<close>

definition ex_failing_downloader :: DownloaderRunner where
  "ex_failing_downloader basedir files d = (Inl (LibraryError ''download failed''), d)"

definition ex_download_failing_handler :: SimpleEventHandler where
  "ex_download_failing_handler =
     \<lparr>downloader_runner = ex_failing_downloader, uploader_runner = ex_uploader\<rparr>"

definition ex_failing_uploader :: UploaderRunner where
  "ex_failing_uploader dir t kvs d = (Inl (LibraryError ''upload failed''), d)"

definition ex_upload_failing_handler :: SimpleEventHandler where
  "ex_upload_failing_handler =
     \<lparr>downloader_runner = ex_downloader, uploader_runner = ex_failing_uploader\<rparr>"

text \<open>
  Further events: one that carries the pair with both values, and the one the
  handler's own upload gives rise to.
\<close>

definition ex_event_both :: json where
  "ex_event_both =
     JObj [(''data'', JArr [
              JObj [(''destinationTable'', JStr ''TransactionKeyValue''),
                    (''key'', JStr ''uppercase_text''),
                    (''value'', JStr ''True'')],
              JObj [(''destinationTable'', JStr ''TransactionKeyValue''),
                    (''key'', JStr ''uppercase_text''),
                    (''value'', JStr ''False'')]])]"

definition ex_event_reupload :: json where
  "ex_event_reupload =
     JObj [(''data'', JArr [
              JObj [(''destinationTable'', JStr ''TransactionKeyValue''),
                    (''key'', JStr ''uppercase_text''),
                    (''value'', JStr ''True'')],
              JObj [(''destinationTable'', JStr ''TransactionKeyValue''),
                    (''key'', JStr ''Transactions._id''),
                    (''value'', JNum 1234)]])]"

text \<open>
  A downloader whose opener opens the stored file by its path, as \<^verbatim>\<open>open(path)\<close> does:
  the file object is named by that path, \<^verbatim>\<open>join(basedir, "hello.txt")\<close>, and reading it
  yields what the file holds at that moment.
\<close>

definition ex_path_downloader :: DownloaderRunner where
  "ex_path_downloader basedir files d =
     (Inr [\<lambda>d'. Inr \<lparr>fd_name = path_join basedir ''hello.txt'',
                      fd_read = read_at (path_join basedir ''hello.txt'')\<rparr>],
      write_file (path_join basedir ''hello.txt'') ''hello'' d)"

definition ex_path_handler :: SimpleEventHandler where
  "ex_path_handler =
     \<lparr>downloader_runner = ex_path_downloader, uploader_runner = ex_uploader\<rparr>"

section \<open>Lemmas\<close>

lemma evaluate_filter:
  "evaluate (AndExpr [KeyEqStr ''destinationTable'' ''TransactionKeyValue'',
                       KeyEqStr ''key'' ''uppercase_text'',
                       KeyEqStr ''value'' ''False'']) r
   = is_tkv ''uppercase_text'' ''False'' r"
  by (cases r) (simp_all add: is_tkv_def)

lemma concat_map_filter_single:
  "concat (map (\<lambda>x. if P x then [x] else []) xs) = filter P xs"
  by (induction xs) simp_all

lemma match_uppercase_route:
  "match_path uppercase_route event = filter (is_tkv ''uppercase_text'' ''False'') (event_data event)"
proof -
  have step: "\<And>r. match_path [Filter (AndExpr [KeyEqStr ''destinationTable'' ''TransactionKeyValue'',
                       KeyEqStr ''key'' ''uppercase_text'',
                       KeyEqStr ''value'' ''False''])] r
      = (if is_tkv ''uppercase_text'' ''False'' r then [r] else [])"
    using evaluate_filter by simp
  have wild: "\<And>v. match_path [Wildcard, Filter (AndExpr [KeyEqStr ''destinationTable'' ''TransactionKeyValue'',
                       KeyEqStr ''key'' ''uppercase_text'',
                       KeyEqStr ''value'' ''False''])] v
      = filter (is_tkv ''uppercase_text'' ''False'') (match_subscript Wildcard v)"
    unfolding match_path.simps(2)[of Wildcard] step by (simp add: concat_map_filter_single)
  show ?thesis
    unfolding uppercase_route_def match_path.simps(2)[of "ObjectIndex ''data''"] wild
    by (cases event) (auto simp: event_data_def split: option.splits json.splits)
qed

lemma route_matches_iff:
  "match_path uppercase_route event \<noteq> [] \<longleftrightarrow> has_tkv event ''uppercase_text'' ''False''"
  by (simp add: match_uppercase_route has_tkv_def filter_empty_conv list_ex_iff)

lemma rw_actions_simps [simp]:
  "rw_actions U u [] = []"
  "rw_actions U u ((n, s) # rs) = ReadFile n s # WriteFile (path_join u n) (U s) # rw_actions U u rs"
  by (simp_all add: rw_actions_def)

lemma rw_actions_append [simp]: "rw_actions U u (xs @ ys) = rw_actions U u xs @ rw_actions U u ys"
  by (simp add: rw_actions_def)

lemma rw_actions_facts [simp]:
  "reads (rw_actions U u rs) = rs"
  "writes (rw_actions U u rs) = map (\<lambda>(n, s). (path_join u n, U s)) rs"
  "created (rw_actions U u rs) = []"
  "cleanup_errors (rw_actions U u rs) = []"
  "uploads (rw_actions U u rs) = []"
  "downloads (rw_actions U u rs) = []"
  by (induct rs) (auto simp: uploads_def downloads_def)

lemma open_w_Inr: "open_w p d = Inr d1 \<Longrightarrow> d1 = d\<lparr>file_at := (file_at d)(p \<mapsto> [])\<rparr>"
  by (auto simp: open_w_def split: if_splits)

lemma transform_files_trace:
  "transform_files U u ops w = (r, w') \<Longrightarrow>
     \<exists>rs. trace w' = trace w @ rw_actions U u rs \<and> is_dir (disk w') = is_dir (disk w) \<and>
          tmp_names w' = tmp_names w \<and> (r = Inr () \<longrightarrow> length rs = length ops)"
proof (induction ops arbitrary: w)
  case Nil
  then show ?case by (intro exI[of _ "[]"]) auto
next
  case (Cons file_opener rest)
  show ?case
  proof (cases "file_opener (disk w)")
    case (Inl e)
    with Cons.prems show ?thesis by (intro exI[of _ "[]"]) auto
  next
    case (Inr file_fd)
    let ?p = "path_join u (fd_name file_fd)"
    show ?thesis
    proof (cases "open_w ?p (disk w)")
      case (Inl e)
      with Inr Cons.prems show ?thesis by (intro exI[of _ "[]"]) (auto simp: Let_def)
    next
      case d1: (Inr d1)
      note d1eq = open_w_Inr[OF d1]
      show ?thesis
      proof (cases "fd_read file_fd d1")
        case (Inl e)
        with Inr d1 d1eq Cons.prems show ?thesis by (intro exI[of _ "[]"]) (auto simp: Let_def)
      next
        case s: (Inr s)
        let ?w1 = "w\<lparr>disk := write_file ?p (U s) d1,
                      trace := trace w @ [ReadFile (fd_name file_fd) s, WriteFile ?p (U s)]\<rparr>"
        from Cons.prems Inr d1 s have "transform_files U u rest ?w1 = (r, w')"
          by (simp add: Let_def)
        from Cons.IH[OF this] obtain rs where
          rs: "trace w' = trace ?w1 @ rw_actions U u rs" "is_dir (disk w') = is_dir (disk ?w1)"
              "tmp_names w' = tmp_names ?w1"
              "r = Inr () \<longrightarrow> length rs = length rest"
          by blast
        show ?thesis
          using rs d1eq
          by (intro exI[of _ "(fd_name file_fd, s) # rs"]) (auto simp: write_file_def)
      qed
    qed
  qed
qed

lemma handle_body_shape:
  assumes "handle_body U self ti fl dd ud w = (r, w')"
  shows "\<exists>t. trace w' = trace w @ t \<and> body_shape U dd ud fl ti r t"
proof (cases "downloader_runner self dd fl (disk w)")
  case (Pair res d1)
  show ?thesis
  proof (cases res)
    case (Inl e)
    with Pair assms show ?thesis
      by (auto simp: handle_body_def body_shape_def)
  next
    case (Inr openers)
    let ?w1 = "w\<lparr>disk := d1, trace := trace w @ [Download dd fl None]\<rparr>"
    obtain r2 w2 where tf: "transform_files U ud openers ?w1 = (r2, w2)"
      by (cases "transform_files U ud openers ?w1")
    from transform_files_trace[OF tf] obtain rs where
      rs: "trace w2 = trace ?w1 @ rw_actions U ud rs"
      by blast
    show ?thesis
    proof (cases r2)
      case (Inl e)
      with Pair Inr tf assms rs show ?thesis
        by (auto simp: handle_body_def body_shape_def)
    next
      case r2: (Inr u)
      obtain res3 d3 where
        up: "uploader_runner self ud (new_transaction ti) (new_key_values ti) (disk w2)
               = (res3, d3)"
        by (cases "uploader_runner self ud (new_transaction ti) (new_key_values ti) (disk w2)")
      show ?thesis
      proof (cases res3)
        case (Inl e)
        with Pair Inr tf r2 up assms rs show ?thesis
          by (auto simp: handle_body_def body_shape_def Let_def)
      next
        case res3: (Inr triple)
        obtain b j st where triple: "triple = (b, j, st)" by (cases triple)
        from Pair Inr tf r2 up res3 triple assms
        have r: "r = Inr JNull"
          and w': "trace w' = trace w2 @
                     [Upload ud (new_transaction ti) (new_key_values ti) (disk w2) (Inr j)]"
          by (auto simp: handle_body_def Let_def)
        with rs show ?thesis
          unfolding body_shape_def by auto
      qed
    qed
  qed
qed

lemma mkdtemp_from_Inr:
  "mkdtemp_from ns d = (Inr file, ns') \<Longrightarrow> \<not> is_dir d file"
  by (induction ns) (auto simp: Let_def split: if_splits)

lemma mkdtemp_effect:
  assumes "mkdtemp w = (r, w1)"
  shows "case r of
           Inl e \<Rightarrow> trace w1 = trace w \<and> disk w1 = disk w
         | Inr d \<Rightarrow> trace w1 = trace w @ [Mkdtemp d] \<and>
                     is_dir (disk w1) = (is_dir (disk w))(d := True)"
  using assms by (auto simp: mkdtemp_def split: prod.splits sum.splits)

lemma cleanup_effect:
  assumes "cleanup d w2 = (c, w3)"
  shows "trace w3 = trace w2 @ [Rmtree d (case c of Inl e \<Rightarrow> Some e | Inr u \<Rightarrow> None)]"
    and "\<not> is_dir (disk w3) d"
    and "\<And>p. is_dir (disk w3) p \<Longrightarrow> is_dir (disk w2) p"
  using assms by (auto simp: cleanup_def rmtree_def split: sum.splits if_splits)

lemma TemporaryDirectory_cases:
  assumes "TemporaryDirectory body w = (r, w')"
  shows "(\<exists>e. mkdtemp w = (Inl e, w') \<and> r = Inl e) \<or>
         (\<exists>d w1 rb w2 c. mkdtemp w = (Inr d, w1) \<and> body d w1 = (rb, w2) \<and>
             cleanup d w2 = (c, w') \<and> r = (case c of Inl e \<Rightarrow> Inl e | Inr u \<Rightarrow> rb))"
  using assms by (auto simp: TemporaryDirectory_def split: prod.splits sum.splits)

lemma handle_tempdirs:
  assumes "TemporaryDirectory (\<lambda>dd. TemporaryDirectory (\<lambda>ud. handle_body U self ti fl dd ud)) w = (r, w')"
    and ti: "Transaction_from_cloudevents_model M event = Inr ti"
    and fl: "File_from_cloudevents_model M event = Inr fl"
  shows "\<exists>t. trace w' = trace w @ t \<and> handle_shape U M event r t (disk w')"
  using TemporaryDirectory_cases[OF assms(1)]
proof (elim disjE exE conjE)
  fix e assume "mkdtemp w = (Inl e, w')" "r = Inl e"
  with mkdtemp_effect[of w "Inl e" w'] show ?thesis
    by (auto simp: handle_shape_def)
next
  fix d1 w1 rb1 w2 c1
  assume mk1: "mkdtemp w = (Inr d1, w1)"
    and inner: "TemporaryDirectory (\<lambda>ud. handle_body U self ti fl d1 ud) w1 = (rb1, w2)"
    and cl1: "cleanup d1 w2 = (c1, w')"
    and r: "r = (case c1 of Inl e \<Rightarrow> Inl e | Inr u \<Rightarrow> rb1)"
  from mkdtemp_effect[OF mk1] have t1: "trace w1 = trace w @ [Mkdtemp d1]" by simp
  note c1 = cleanup_effect[OF cl1]
  from TemporaryDirectory_cases[OF inner] show ?thesis
  proof (elim disjE exE conjE)
    fix e assume "mkdtemp w1 = (Inl e, w2)" "rb1 = Inl e"
    with mkdtemp_effect[of w1 "Inl e" w2] t1 c1(1,2) r show ?thesis
      by (intro exI[of _ "[Mkdtemp d1, Rmtree d1 (case c1 of Inl e \<Rightarrow> Some e | Inr u \<Rightarrow> None)]"])
         (auto simp: handle_shape_def split: sum.splits)
  next
    fix d2 w1' rb w2' c2
    assume mk2: "mkdtemp w1 = (Inr d2, w1')"
      and body: "handle_body U self ti fl d1 d2 w1' = (rb, w2')"
      and cl2: "cleanup d2 w2' = (c2, w2)"
      and rb1: "rb1 = (case c2 of Inl e \<Rightarrow> Inl e | Inr u \<Rightarrow> rb)"
    from mkdtemp_effect[OF mk2] have t2: "trace w1' = trace w1 @ [Mkdtemp d2]" by simp
    from handle_body_shape[OF body] obtain b where
      b: "trace w2' = trace w1' @ b" "body_shape U d1 d2 fl ti rb b" by blast
    note c2 = cleanup_effect[OF cl2]
    let ?x = "case c2 of Inl e \<Rightarrow> Some e | Inr u \<Rightarrow> None"
    let ?y = "case c1 of Inl e \<Rightarrow> Some e | Inr u \<Rightarrow> None"
    have tr: "trace w' = trace w @ (Mkdtemp d1 # Mkdtemp d2 # b @ [Rmtree d2 ?x, Rmtree d1 ?y])"
      using t1 t2 b(1) c1(1) c2(1) by simp
    have gone: "\<not> is_dir (disk w') d1" "\<not> is_dir (disk w') d2"
      using c1(2) c1(3)[of d2] c2(2) by auto
    have res: "r = (case ?y of Some e \<Rightarrow> Inl e
               | None \<Rightarrow> (case ?x of Some e \<Rightarrow> Inl e | None \<Rightarrow> rb))"
      using r rb1 by (auto split: sum.splits)
    show ?thesis
      unfolding handle_shape_def
      using tr gone res b(2) ti fl by blast
  qed
qed

lemma handle_has_shape:
  assumes "handle U M self event w = (r, w')"
  shows "\<exists>t. trace w' = trace w @ t \<and> handle_shape U M event r t (disk w')"
proof (cases "Transaction_from_cloudevents_model M event")
  case (Inl e)
  with assms show ?thesis by (auto simp: handle_def handle_shape_def)
next
  case ti: (Inr ti)
  show ?thesis
  proof (cases "TransactionKeyValue_from_cloudevents_model M event")
    case (Inl e)
    with ti assms show ?thesis by (auto simp: handle_def handle_shape_def)
  next
    case kv: (Inr kvs)
    show ?thesis
    proof (cases "File_from_cloudevents_model M event")
      case (Inl e)
      with ti kv assms show ?thesis by (auto simp: handle_def handle_shape_def)
    next
      case fl: (Inr fl)
      from assms ti kv fl
      have "TemporaryDirectory (\<lambda>dd. TemporaryDirectory (\<lambda>ud. handle_body U self ti fl dd ud)) w = (r, w')"
        by (simp add: handle_def)
      from handle_tempdirs[OF this ti fl] show ?thesis .
    qed
  qed
qed

lemma handle_new_actions:
  assumes "handle U M self event w = (r, w')"
  shows "handle_shape U M event r (new_actions w w') (disk w')"
  using handle_has_shape[OF assms] by (auto simp: new_actions_def)

lemma created_append [simp]: "created (xs @ ys) = created xs @ created ys"
  by (induction xs rule: created.induct) simp_all

lemma reads_append [simp]: "reads (xs @ ys) = reads xs @ reads ys"
  by (induction xs rule: reads.induct) simp_all

lemma writes_append [simp]: "writes (xs @ ys) = writes xs @ writes ys"
  by (induction xs rule: writes.induct) simp_all

lemma cleanup_errors_append [simp]: "cleanup_errors (xs @ ys) = cleanup_errors xs @ cleanup_errors ys"
  by (induction xs rule: cleanup_errors.induct) simp_all

lemma uploads_simps [simp]:
  "uploads [] = []"
  "uploads (xs @ ys) = uploads xs @ uploads ys"
  "uploads (Upload d t k f x # xs) = Upload d t k f x # uploads xs"
  "uploads (Mkdtemp p # xs) = uploads xs"
  "uploads (Rmtree p e # xs) = uploads xs"
  "uploads (Download p fl e # xs) = uploads xs"
  "uploads (ReadFile n s # xs) = uploads xs"
  "uploads (WriteFile n s # xs) = uploads xs"
  by (simp_all add: uploads_def)

lemma downloads_simps [simp]:
  "downloads [] = []"
  "downloads (xs @ ys) = downloads xs @ downloads ys"
  "downloads (Download p fl e # xs) = Download p fl e # downloads xs"
  "downloads (Mkdtemp p # xs) = downloads xs"
  "downloads (Rmtree p e # xs) = downloads xs"
  "downloads (Upload d t k f x # xs) = downloads xs"
  "downloads (ReadFile n s # xs) = downloads xs"
  "downloads (WriteFile n s # xs) = downloads xs"
  by (simp_all add: downloads_def)

lemma not_in_rw_actions [simp]:
  "Download p fl e \<notin> set (rw_actions U u rs)"
  "Upload d t k f x \<notin> set (rw_actions U u rs)"
  by (induct rs) auto

lemma match_event_ROUTER:
  "match_event (ROUTER self) event =
     (if has_tkv event ''uppercase_text'' ''False'' then [self] else [])"
  using route_matches_iff[of event]
  by (simp add: ROUTER_def add_route_def match_event_def)

lemmas run_defs =
  handle_def TemporaryDirectory_def mkdtemp_def gettempdir_def path_join_def
  handle_body_def cleanup_def rmtree_def open_w_def write_file_def read_at_def
  basename_def dirname_def below_def ascii_upper_def ascii_upper_char_def new_transaction_def
  new_key_values_def new_actions_def Let_def
  ex_models_def ex_handler_def ex_world_def ex_downloader_def ex_uploader_def
  ex_transaction_def ex_failing_downloader_def ex_download_failing_handler_def
  ex_failing_uploader_def ex_upload_failing_handler_def
  ex_path_downloader_def ex_path_handler_def

lemmas event_defs =
  has_tkv_def is_tkv_def event_data_def ex_event_def ex_event_both_def
  ex_event_reupload_def

section \<open>The claims\<close>

text \<open>
  C1 (amended). An event that carries \<^verbatim>\<open>uppercase_text = "False"\<close> matches the route,
  so the router hands it to the handler. Whenever that run of the handler returns
  without raising, it has called the uploader exactly once, on its second temporary
  directory, with a key-value list that contains \<^verbatim>\<open>uppercase_text = "True"\<close>.
\<close>

theorem triggered_run_uploads_once:
  assumes "has_tkv event ''uppercase_text'' ''False''"
    and "handle U M self event w = (Inr v, w')"
  shows "match_event (ROUTER self) event = [self] \<and>
         length (uploads (new_actions w w')) = 1 \<and>
         list_all (\<lambda>u.
             \<lparr>kv_key = ''uppercase_text'', kv_value = JStr ''True''\<rparr> \<in> set (up_kvs u) \<and>
             up_dir u = last (created (new_actions w w')))
           (uploads (new_actions w w'))"
proof -
  let ?new = "new_actions w w'"
  from handle_new_actions[OF assms(2)]
  obtain ti fl d1 d2 rs j f where
    new: "?new = Mkdtemp d1 # Mkdtemp d2 #
            (Download d1 fl None # rw_actions U d2 rs @
               [Upload d2 (new_transaction ti) (new_key_values ti) f (Inr j)]) @
            [Rmtree d2 None, Rmtree d1 None]"
    unfolding handle_shape_def body_shape_def
    by (auto split: option.splits)
  have up: "uploads ?new = [Upload d2 (new_transaction ti) (new_key_values ti) f (Inr j)]"
    and cr: "created ?new = [d1, d2]"
    unfolding new by simp_all
  show ?thesis
    using assms(1) unfolding up cr
    by (simp add: match_event_ROUTER new_key_values_def)
qed

theorem triggered_run_uploads_once_witness:
  "has_tkv ex_event ''uppercase_text'' ''False'' \<and>
   handle ascii_upper ex_models ex_path_handler ex_event ex_world
     = (Inr JNull, snd (handle ascii_upper ex_models ex_path_handler ex_event ex_world)) \<and>
   match_event (ROUTER ex_path_handler) ex_event = [ex_path_handler] \<and>
   map (\<lambda>u. (up_dir u, up_kvs u))
     (uploads (new_actions ex_world
        (snd (handle ascii_upper ex_models ex_path_handler ex_event ex_world))))
     = [(''/tmp/tmpbbbb'',
         [\<lparr>kv_key = ''uppercase_text'', kv_value = JStr ''True''\<rparr>,
          \<lparr>kv_key = ''Transactions._id'', kv_value = JNum 1234\<rparr>])]"
proof -
  let ?run = "handle ascii_upper ex_models ex_path_handler ex_event ex_world"
  have trig: "has_tkv ex_event ''uppercase_text'' ''False''"
    by (simp add: event_defs)
  have "fst ?run = Inr JNull" by (simp add: run_defs)
  then have run: "?run = (Inr JNull, snd ?run)" by (metis prod.collapse)
  have ups: "map (\<lambda>u. (up_dir u, up_kvs u)) (uploads (new_actions ex_world (snd ?run)))
               = [(''/tmp/tmpbbbb'',
                   [\<lparr>kv_key = ''uppercase_text'', kv_value = JStr ''True''\<rparr>,
                    \<lparr>kv_key = ''Transactions._id'', kv_value = JNum 1234\<rparr>])]"
    by (simp add: run_defs)
  from triggered_run_uploads_once[OF trig run]
  have m: "match_event (ROUTER ex_path_handler) ex_event = [ex_path_handler]"
    by (rule conjunct1)
  show ?thesis
    by (rule conjI[OF trig conjI[OF run conjI[OF m ups]]])
qed

theorem triggered_run_without_upload:
  "has_tkv ex_event ''uppercase_text'' ''False'' \<and>
   match_event (ROUTER ex_download_failing_handler) ex_event
     = [ex_download_failing_handler] \<and>
   fst (handle ascii_upper ex_models ex_download_failing_handler ex_event ex_world)
     = Inl (LibraryError ''download failed'') \<and>
   uploads (new_actions ex_world
      (snd (handle ascii_upper ex_models ex_download_failing_handler ex_event ex_world))) = []"
proof -
  have trig: "has_tkv ex_event ''uppercase_text'' ''False''"
    by (simp add: event_defs)
  then have "match_event (ROUTER ex_download_failing_handler) ex_event
     = [ex_download_failing_handler]"
    by (simp add: match_event_ROUTER)
  with trig show ?thesis by (simp add: run_defs)
qed

text \<open>
  C2 (amended). An event that carries \<^verbatim>\<open>uppercase_text = "True"\<close> and does not carry
  \<^verbatim>\<open>uppercase_text = "False"\<close> matches no route of the router, so the router does not
  hand it to the handler. The event of the handler's own upload is such an event.
\<close>

theorem no_match_without_False:
  assumes "has_tkv event ''uppercase_text'' ''True''"
    and "\<not> has_tkv event ''uppercase_text'' ''False''"
  shows "match_event (ROUTER self) event = []"
  using assms(2) by (simp add: match_event_ROUTER)

theorem no_match_without_False_witness:
  "has_tkv ex_event_reupload ''uppercase_text'' ''True'' \<and>
   \<not> has_tkv ex_event_reupload ''uppercase_text'' ''False'' \<and>
   match_event (ROUTER ex_handler) ex_event_reupload = []"
proof -
  have t: "has_tkv ex_event_reupload ''uppercase_text'' ''True''"
    by (simp add: event_defs)
  have f: "\<not> has_tkv ex_event_reupload ''uppercase_text'' ''False''"
    by (simp add: event_defs)
  from no_match_without_False[OF t f, of ex_handler] t f show ?thesis by simp
qed

theorem True_and_False_event_is_routed:
  "has_tkv ex_event_both ''uppercase_text'' ''True'' \<and>
   match_event (ROUTER ex_handler) ex_event_both = [ex_handler]"
  by (simp add: match_event_ROUTER) (simp add: event_defs)

text \<open>
  C3. Whatever a run of the handler returns or raises, every temporary directory it
  created is no directory any more when it is over: this holds for a normal return and
  for an exception of the download, the transformation, the upload, the creation of
  the second directory or the cleanup itself.
\<close>

theorem handle_removes_tempdirs:
  assumes "handle U M self event w = (r, w')"
  shows "list_all (\<lambda>d. \<not> is_dir (disk w') d) (created (new_actions w w'))"
  using handle_new_actions[OF assms]
  unfolding handle_shape_def body_shape_def by auto

theorem handle_removes_tempdirs_witness:
  "created (new_actions ex_world (snd (handle ascii_upper ex_models ex_handler ex_event ex_world)))
     = [''/tmp/tmpaaaa'', ''/tmp/tmpbbbb''] \<and>
   \<not> is_dir (disk (snd (handle ascii_upper ex_models ex_handler ex_event ex_world))) ''/tmp/tmpaaaa'' \<and>
   \<not> is_dir (disk (snd (handle ascii_upper ex_models ex_handler ex_event ex_world))) ''/tmp/tmpbbbb'' \<and>
   created (new_actions ex_world
      (snd (handle ascii_upper ex_models ex_upload_failing_handler ex_event ex_world)))
     = [''/tmp/tmpaaaa'', ''/tmp/tmpbbbb''] \<and>
   \<not> is_dir (disk (snd (handle ascii_upper ex_models ex_upload_failing_handler ex_event ex_world)))
      ''/tmp/tmpaaaa'' \<and>
   \<not> is_dir (disk (snd (handle ascii_upper ex_models ex_upload_failing_handler ex_event ex_world)))
      ''/tmp/tmpbbbb''"
proof -
  let ?ok = "handle ascii_upper ex_models ex_handler ex_event ex_world"
  let ?bad = "handle ascii_upper ex_models ex_upload_failing_handler ex_event ex_world"
  have ok: "?ok = (fst ?ok, snd ?ok)" and bad: "?bad = (fst ?bad, snd ?bad)"
    by simp_all
  have c1: "created (new_actions ex_world (snd ?ok)) = [''/tmp/tmpaaaa'', ''/tmp/tmpbbbb'']"
    by (simp add: run_defs)
  have c2: "created (new_actions ex_world (snd ?bad)) = [''/tmp/tmpaaaa'', ''/tmp/tmpbbbb'']"
    by (simp add: run_defs)
  from handle_removes_tempdirs[OF ok] handle_removes_tempdirs[OF bad] c1 c2
  show ?thesis by simp
qed

text \<open>
  C4. When the call of the downloader or of the uploader raises \<open>e\<close>, the handler
  raises: its outcome is the exception raised last, which is \<open>e\<close> itself unless the
  cleanup of a temporary directory raised after it. Nothing is retried and nothing is
  done in place of the failed step: the downloader was called once, the uploader at
  most once, and after a failed download nothing was written or uploaded.
\<close>

theorem handle_propagates_failure:
  assumes "handle U M self event w = (r, w')"
    and "Download dd fl (Some e) \<in> set (new_actions w w') \<or>
         Upload ud tx kvs f (Inl e) \<in> set (new_actions w w')"
  shows "r = Inl (last (e # cleanup_errors (new_actions w w'))) \<and>
         length (downloads (new_actions w w')) = 1 \<and>
         length (uploads (new_actions w w')) \<le> 1 \<and>
         (Download dd fl (Some e) \<in> set (new_actions w w') \<longrightarrow>
            uploads (new_actions w w') = [] \<and> writes (new_actions w w') = [])"
  using handle_new_actions[OF assms(1)] assms(2)
  unfolding handle_shape_def body_shape_def
  by (elim disjE exE conjE; cases "cleanup_errors (new_actions w w')")
     (auto split: option.splits)

theorem handle_propagates_failure_witness:
  "Download ''/tmp/tmpaaaa'' [JStr ''hello.txt''] (Some (LibraryError ''download failed''))
     \<in> set (new_actions ex_world
          (snd (handle ascii_upper ex_models ex_download_failing_handler ex_event ex_world))) \<and>
   fst (handle ascii_upper ex_models ex_download_failing_handler ex_event ex_world)
     = Inl (LibraryError ''download failed'') \<and>
   length (downloads (new_actions ex_world
      (snd (handle ascii_upper ex_models ex_download_failing_handler ex_event ex_world)))) = 1 \<and>
   uploads (new_actions ex_world
      (snd (handle ascii_upper ex_models ex_download_failing_handler ex_event ex_world))) = [] \<and>
   map up_result (uploads (new_actions ex_world
      (snd (handle ascii_upper ex_models ex_upload_failing_handler ex_event ex_world))))
     = [Inl (LibraryError ''upload failed'')] \<and>
   fst (handle ascii_upper ex_models ex_upload_failing_handler ex_event ex_world)
     = Inl (LibraryError ''upload failed'') \<and>
   length (downloads (new_actions ex_world
      (snd (handle ascii_upper ex_models ex_upload_failing_handler ex_event ex_world)))) = 1"
proof -
  let ?run = "handle ascii_upper ex_models ex_download_failing_handler ex_event ex_world"
  let ?up = "handle ascii_upper ex_models ex_upload_failing_handler ex_event ex_world"
  have run: "?run = (fst ?run, snd ?run)" and up: "?up = (fst ?up, snd ?up)"
    by simp_all
  have mem: "Download ''/tmp/tmpaaaa'' [JStr ''hello.txt'']
               (Some (LibraryError ''download failed''))
             \<in> set (new_actions ex_world (snd ?run))"
    by (simp add: run_defs)
  have ce: "cleanup_errors (new_actions ex_world (snd ?run)) = []"
    by (simp add: run_defs)
  have ups: "map up_result (uploads (new_actions ex_world (snd ?up)))
               = [Inl (LibraryError ''upload failed'')]"
    by (simp add: run_defs)
  then obtain u where u: "uploads (new_actions ex_world (snd ?up)) = [u]"
    and res: "up_result u = Inl (LibraryError ''upload failed'')"
    by auto
  from u have "u \<in> set (filter is_Upload (new_actions ex_world (snd ?up)))"
    by (simp add: uploads_def)
  then have "u \<in> set (new_actions ex_world (snd ?up))" and "is_Upload u"
    by simp_all
  with res have mem2: "Upload (up_dir u) (up_transaction u) (up_kvs u) (up_fs u)
                         (Inl (LibraryError ''upload failed''))
                       \<in> set (new_actions ex_world (snd ?up))"
    by (cases u) auto
  have ce2: "cleanup_errors (new_actions ex_world (snd ?up)) = []"
    by (simp add: run_defs)
  from handle_propagates_failure[OF run disjI1, OF mem] ce
  have a: "fst ?run = Inl (LibraryError ''download failed'')"
    and b: "length (downloads (new_actions ex_world (snd ?run))) = 1"
    and c: "uploads (new_actions ex_world (snd ?run)) = []"
    using mem by simp_all
  from handle_propagates_failure[OF up disjI2, OF mem2] ce2
  have d: "fst ?up = Inl (LibraryError ''upload failed'')"
    and e: "length (downloads (new_actions ex_world (snd ?up))) = 1"
    by simp_all
  show ?thesis
    by (rule conjI[OF mem conjI[OF a conjI[OF b conjI[OF c conjI[OF ups conjI[OF d e]]]]]])
qed

text \<open>
  C6 (amended). A run of the handler that returns without raising returns \<^verbatim>\<open>None\<close>.
  It has called the uploader exactly once and that call returned a job id, which the
  handler binds to a local name and drops.
\<close>

theorem handle_returns_None:
  assumes "handle U M self event w = (Inr v, w')"
  shows "v = JNull \<and> length (uploads (new_actions w w')) = 1 \<and>
         list_all (\<lambda>u. \<not> isl (up_result u)) (uploads (new_actions w w'))"
  using handle_new_actions[OF assms]
  unfolding handle_shape_def body_shape_def
  by (auto split: option.splits)

theorem handle_returns_None_witness:
  "handle ascii_upper ex_models ex_handler ex_event ex_world
     = (Inr JNull, snd (handle ascii_upper ex_models ex_handler ex_event ex_world)) \<and>
   length (uploads (new_actions ex_world
      (snd (handle ascii_upper ex_models ex_handler ex_event ex_world)))) = 1"
proof -
  let ?run = "handle ascii_upper ex_models ex_handler ex_event ex_world"
  have "fst ?run = Inr JNull" by (simp add: run_defs)
  then have run: "?run = (Inr JNull, snd ?run)" by (metis prod.collapse)
  from handle_returns_None[OF run] run show ?thesis by simp
qed

theorem handle_output_is_not_the_job_id:
  "fst (handle ascii_upper ex_models ex_handler ex_event ex_world) = Inr JNull \<and>
   map up_result (uploads (new_actions ex_world
      (snd (handle ascii_upper ex_models ex_handler ex_event ex_world)))) = [Inr (JNum 42)] \<and>
   JNull \<noteq> JNum 42"
  by (simp add: run_defs)

text \<open>
  C8. The transaction handed to the uploader has the submitter, the instrument and the
  project of the transaction of the triggering event, and its remaining field, the
  id, is \<^verbatim>\<open>None\<close> whatever the id of the original was. A run that returns without
  raising has made exactly one such call.
\<close>

theorem reupload_transaction_fields:
  assumes "handle U M self event w = (r, w')"
    and "Transaction_from_cloudevents_model M event = Inr ti"
  shows "list_all (\<lambda>u. up_transaction u =
             \<lparr>t_id = JNull, submitter = submitter ti, instrument = instrument ti,
              project = project ti\<rparr>)
           (uploads (new_actions w w')) \<and>
         (\<not> isl r \<longrightarrow> length (uploads (new_actions w w')) = 1)"
  using handle_new_actions[OF assms(1)] assms(2)
  unfolding handle_shape_def body_shape_def
  by (auto simp: new_transaction_def split: option.splits)

theorem reupload_transaction_fields_witness:
  "Transaction_from_cloudevents_model ex_models ex_event = Inr ex_transaction \<and>
   map up_transaction (uploads (new_actions ex_world
      (snd (handle ascii_upper ex_models ex_handler ex_event ex_world))))
     = [\<lparr>t_id = JNull, submitter = JNum 10, instrument = JNum 54,
         project = JStr ''1234a''\<rparr>]"
proof -
  let ?run = "handle ascii_upper ex_models ex_handler ex_event ex_world"
  have run: "?run = (fst ?run, snd ?run)" by simp
  have ti: "Transaction_from_cloudevents_model ex_models ex_event = Inr ex_transaction"
    by (simp add: ex_models_def)
  have one: "length (uploads (new_actions ex_world (snd ?run))) = 1"
    by (simp add: run_defs)
  then obtain u where u: "uploads (new_actions ex_world (snd ?run)) = [u]"
    by (cases "uploads (new_actions ex_world (snd ?run))") auto
  from reupload_transaction_fields[OF run ti] ti u
  show ?thesis by (simp add: ex_transaction_def)
qed

text \<open>
  C9. The key-value list handed to the uploader is exactly the two pairs
  \<^verbatim>\<open>('uppercase_text', 'True')\<close> and \<^verbatim>\<open>('Transactions._id', id)\<close>, where \<open>id\<close> is the id
  of the transaction of the triggering event. A run that returns without raising has
  made exactly one such call.
\<close>

theorem reupload_key_values:
  assumes "handle U M self event w = (r, w')"
    and "Transaction_from_cloudevents_model M event = Inr ti"
  shows "list_all (\<lambda>u. up_kvs u =
             [\<lparr>kv_key = ''uppercase_text'', kv_value = JStr ''True''\<rparr>,
              \<lparr>kv_key = ''Transactions._id'', kv_value = t_id ti\<rparr>])
           (uploads (new_actions w w')) \<and>
         (\<not> isl r \<longrightarrow> length (uploads (new_actions w w')) = 1)"
  using handle_new_actions[OF assms(1)] assms(2)
  unfolding handle_shape_def body_shape_def
  by (auto simp: new_key_values_def split: option.splits)

theorem reupload_key_values_witness:
  "Transaction_from_cloudevents_model ex_models ex_event = Inr ex_transaction \<and>
   map up_kvs (uploads (new_actions ex_world
      (snd (handle ascii_upper ex_models ex_handler ex_event ex_world))))
     = [[\<lparr>kv_key = ''uppercase_text'', kv_value = JStr ''True''\<rparr>,
         \<lparr>kv_key = ''Transactions._id'', kv_value = JNum 1234\<rparr>]]"
proof -
  let ?run = "handle ascii_upper ex_models ex_handler ex_event ex_world"
  have run: "?run = (fst ?run, snd ?run)" by simp
  have ti: "Transaction_from_cloudevents_model ex_models ex_event = Inr ex_transaction"
    by (simp add: ex_models_def)
  have one: "length (uploads (new_actions ex_world (snd ?run))) = 1"
    by (simp add: run_defs)
  then obtain u where u: "uploads (new_actions ex_world (snd ?run)) = [u]"
    by (cases "uploads (new_actions ex_world (snd ?run))") auto
  from reupload_key_values[OF run ti] ti u
  show ?thesis by (simp add: ex_transaction_def)
qed

text \<open>
  C10. The loop means to write each downloaded file under its own name into the
  uploader directory. For a file object that is named by the path it was opened with,
  \<^verbatim>\<open>join(uploader_tempdir_name, file_fd.name)\<close> is that path again: the handler opens the
  downloaded file itself for writing, which empties it, reads the empty text back and
  writes it. Nothing is written below the uploader directory, and the directory the
  uploader is given holds no \<^verbatim>\<open>hello.txt\<close>. The run of the example shows it.
\<close>

theorem path_named_file_is_overwritten:
  "fst (handle ascii_upper ex_models ex_path_handler ex_event ex_world) = Inr JNull \<and>
   created (new_actions ex_world
      (snd (handle ascii_upper ex_models ex_path_handler ex_event ex_world)))
     = [''/tmp/tmpaaaa'', ''/tmp/tmpbbbb''] \<and>
   path_join ''/tmp/tmpbbbb'' ''/tmp/tmpaaaa/hello.txt'' = ''/tmp/tmpaaaa/hello.txt'' \<and>
   reads (new_actions ex_world
      (snd (handle ascii_upper ex_models ex_path_handler ex_event ex_world)))
     = [(''/tmp/tmpaaaa/hello.txt'', [])] \<and>
   writes (new_actions ex_world
      (snd (handle ascii_upper ex_models ex_path_handler ex_event ex_world)))
     = [(''/tmp/tmpaaaa/hello.txt'', [])] \<and>
   \<not> below ''/tmp/tmpbbbb'' ''/tmp/tmpaaaa/hello.txt'' \<and>
   map (\<lambda>u. (up_dir u, file_at (up_fs u) ''/tmp/tmpbbbb/hello.txt'',
              file_at (up_fs u) ''/tmp/tmpaaaa/hello.txt''))
     (uploads (new_actions ex_world
        (snd (handle ascii_upper ex_models ex_path_handler ex_event ex_world))))
     = [(''/tmp/tmpbbbb'', None, Some [])]"
  by (simp add: run_defs)

end
